theory Spec2Isabelle
  imports Complex_Main "HOL-Library.AList"
begin

section \<open>Values of the event payloads\<close>

text \<open>
  The handlers of \<^verbatim>\<open>backend/main.py\<close> receive a session id and a dictionary decoded
  from JSON. A dictionary keeps its insertion order, so it is an association list.
\<close>

datatype pyval =
    PNone
  | PBool bool
  | PInt int
  | PFloat real
  | PStr string
  | PList "pyval list"
  | PDict "(string \<times> pyval) list"

type_synonym pydict = "(string \<times> pyval) list"

datatype py_error = AttributeError

text \<open>Python's truth test, as \<^verbatim>\<open>if target:\<close> and \<^verbatim>\<open>bool(...)\<close> apply it.\<close>

fun truthy :: "pyval \<Rightarrow> bool" where
  "truthy PNone = False"
| "truthy (PBool b) = b"
| "truthy (PInt i) = (i \<noteq> 0)"
| "truthy (PFloat x) = (x \<noteq> 0)"
| "truthy (PStr s) = (s \<noteq> [])"
| "truthy (PList xs) = (xs \<noteq> [])"
| "truthy (PDict kvs) = (kvs \<noteq> [])"

text \<open>\<^verbatim>\<open>data.get(k, d)\<close>: the default only stands in for a missing key.\<close>

definition dict_get :: "pydict \<Rightarrow> string \<Rightarrow> pyval \<Rightarrow> pyval" where
  "dict_get d k dflt = (case map_of d k of None \<Rightarrow> dflt | Some v \<Rightarrow> v)"

text \<open>
  \<^verbatim>\<open>str.isascii()\<close>: every character of the string is below 128. The room codes that
  \<^verbatim>\<open>gen_room_code\<close> makes, and their lower-case spellings, are such strings.
\<close>

definition is_ascii :: "string \<Rightarrow> bool" where
  "is_ascii s = list_all (\<lambda>c. (of_char c :: nat) < 128) s"

text \<open>
  \<^verbatim>\<open>str.upper()\<close> on a string of ASCII characters: the letters a to z go to A to Z and
  every other character stays. On any other string \<^verbatim>\<open>str.upper()\<close> follows Unicode (it
  can even change the length) and is not this function, so whatever is stated about a room
  name that a handler puts in upper case is stated for names with \<open>is_ascii\<close>. Called
  on a value that is not a string, \<^verbatim>\<open>.upper\<close> raises AttributeError.
\<close>

definition upper_char :: "char \<Rightarrow> char" where
  "upper_char c =
     (let n = (of_char c :: nat) in if 97 \<le> n \<and> n \<le> 122 then char_of (n - 32) else c)"

definition upper :: "string \<Rightarrow> string" where
  "upper s = map upper_char s"

definition str_upper :: "pyval \<Rightarrow> py_error + string" where
  "str_upper v = (case v of PStr s \<Rightarrow> Inr (upper s) | _ \<Rightarrow> Inl AttributeError)"

section \<open>Room codes\<close>

definition ROOM_CODE_LEN :: nat where
  "ROOM_CODE_LEN = 6"

definition ALPHABET :: string where
  "ALPHABET = ''ABCDEFGHIJKLMNOPQRSTUVWXYZ'' @ ''0123456789''"

text \<open>
  The random source is the sequence of raw draws still to come. \<^verbatim>\<open>random.choice\<close>
  takes the next draw as an index into its argument.
\<close>

type_synonym rng = "nat \<Rightarrow> nat"

definition random_choice :: "'a list \<Rightarrow> rng \<Rightarrow> 'a \<times> rng" where
  "random_choice xs g = (xs ! (g 0 mod length xs), \<lambda>i. g (Suc i))"

fun gen_room_code :: "nat \<Rightarrow> rng \<Rightarrow> string \<times> rng" where
  "gen_room_code 0 g = ([], g)"
| "gen_room_code (Suc n) g =
     (case random_choice ALPHABET g of (c, g1) \<Rightarrow>
        (case gen_room_code n g1 of (cs, g2) \<Rightarrow> (c # cs, g2)))"

section \<open>The room store and the Socket.IO server\<close>

record participant =
  psid :: string
  pname :: pyval
  prole :: pyval

text \<open>
  One value of \<^verbatim>\<open>rooms\<close>. The key \<^verbatim>\<open>host_state\<close> is absent until the handler
  \<^verbatim>\<open>host_state\<close> stores a payload.
\<close>

record room_meta =
  host_sid :: pyval
  participants :: "(string \<times> participant) list"
  created_at :: real
  meta_host_state :: "pydict option"

text \<open>
  The state the handlers work on: the global \<^verbatim>\<open>rooms\<close>, and the group table of the
  Socket.IO server \<^verbatim>\<open>sio\<close>. A group is named by the value passed as \<^verbatim>\<open>to=\<close> or
  \<^verbatim>\<open>room=\<close>: the group \<^verbatim>\<open>None\<close> holds every connected session, the group named by a
  session id holds that session, and \<^verbatim>\<open>sio.enter_room\<close> adds a session to the group of
  a room code.
\<close>

record server =
  rooms :: "(string \<times> room_meta) list"
  groups :: "pyval \<Rightarrow> string set"

definition init_server :: server where
  "init_server = \<lparr>rooms = [], groups = (\<lambda>_. {})\<rparr>"

text \<open>One call of \<^verbatim>\<open>sio.emit(event, data, to=..., room=..., skip_sid=...)\<close>.\<close>

record emission =
  e_event :: string
  e_data :: pyval
  e_to :: pyval
  e_room :: pyval
  e_skip_sid :: pyval

definition enter_room :: "string \<Rightarrow> string \<Rightarrow> server \<Rightarrow> server" where
  "enter_room sid room srv =
     srv\<lparr>groups := (groups srv)(PStr room := insert sid (groups srv (PStr room)))\<rparr>"

text \<open>
  The sessions an emission reaches: the members of the group named by \<^verbatim>\<open>to\<close>, or by
  \<^verbatim>\<open>room\<close> when \<^verbatim>\<open>to\<close> is not given, without the session named by \<^verbatim>\<open>skip_sid\<close>.
\<close>

definition recipients :: "server \<Rightarrow> emission \<Rightarrow> string set" where
  "recipients srv e =
     (let target = (if truthy (e_to e) then e_to e else e_room e)
      in {s \<in> groups srv target. PStr s \<noteq> e_skip_sid e})"

text \<open>What the transport does around the handlers \<^verbatim>\<open>connect\<close> and \<^verbatim>\<open>disconnect\<close>.\<close>

definition sio_connect :: "string \<Rightarrow> server \<Rightarrow> server" where
  "sio_connect sid srv =
     srv\<lparr>groups := (groups srv)(PNone := insert sid (groups srv PNone),
                                 PStr sid := insert sid (groups srv (PStr sid)))\<rparr>"

definition sio_leave_all :: "string \<Rightarrow> server \<Rightarrow> server" where
  "sio_leave_all sid srv = srv\<lparr>groups := (\<lambda>g. groups srv g - {sid})\<rparr>"

section \<open>The HTTP routes\<close>

definition fresh_room :: "real \<Rightarrow> room_meta" where
  "fresh_room now =
     \<lparr>host_sid = PNone, participants = [], created_at = now, meta_host_state = None\<rparr>"

text \<open>
  The loop \<^verbatim>\<open>for _ in range(5)\<close> of \<^verbatim>\<open>create_room\<close>: the first argument counts the
  iterations left, the third is the current value of \<^verbatim>\<open>code\<close>.
\<close>

fun create_room_loop ::
  "nat \<Rightarrow> (string \<times> room_meta) list \<Rightarrow> string \<Rightarrow> rng \<Rightarrow> string \<times> rng" where
  "create_room_loop 0 rs code g = (code, g)"
| "create_room_loop (Suc k) rs code g =
     (case gen_room_code ROOM_CODE_LEN g of (c, g1) \<Rightarrow>
        if map_of rs c = None then (c, g1) else create_room_loop k rs c g1)"

text \<open>
  \<^verbatim>\<open>create_room\<close> returns the new state, the rest of the random source and the
  response body. The loop body runs at least once, so the initial \<^verbatim>\<open>code\<close> is never read.
\<close>

definition create_room :: "server \<Rightarrow> rng \<Rightarrow> real \<Rightarrow> server \<times> rng \<times> pyval" where
  "create_room srv g now =
     (case create_room_loop 5 (rooms srv) [] g of (code, g1) \<Rightarrow>
        (srv\<lparr>rooms := AList.update code (fresh_room now) (rooms srv)\<rparr>,
         g1,
         PDict [(''room'', PStr code)]))"

definition participant_json :: "participant \<Rightarrow> pyval" where
  "participant_json p = PDict [(''sid'', PStr (psid p)), (''name'', pname p), (''role'', prole p)]"

text \<open>\<^verbatim>\<open>get_room\<close>: the status code and the body.\<close>

definition get_room :: "server \<Rightarrow> string \<Rightarrow> nat \<times> pyval" where
  "get_room srv room_code =
     (case map_of (rooms srv) (upper room_code) of
        None \<Rightarrow> (404, PDict [(''error'', PStr ''room not found'')])
      | Some meta \<Rightarrow>
          (200, PDict [(''room'', PStr (upper room_code)),
                       (''meta'', PDict [(''participants'',
                                          PList (map (\<lambda>kv. participant_json (snd kv)) (participants meta))),
                                         (''host_online'', PBool (truthy (host_sid meta)))])]))"

section \<open>The Socket.IO handlers\<close>

text \<open>
  A handler returns the state it leaves and the emissions it made, in order, or the
  exception it raised. Every handler runs to its end before the next one starts.
\<close>

type_synonym outcome = "py_error + server \<times> emission list"

definition connect :: "server \<Rightarrow> string \<Rightarrow> outcome" where
  "connect srv sid = Inr (srv, [])"

text \<open>
  The body of the loop of \<^verbatim>\<open>disconnect\<close>, for one item of \<^verbatim>\<open>rooms.items()\<close>. The
  test that ends the body, for a room left with no participant and no host, only runs
  \<^verbatim>\<open>pass\<close>: the room stays.
\<close>

definition disconnect_room ::
  "string \<Rightarrow> string \<times> room_meta \<Rightarrow> (string \<times> room_meta) \<times> emission list" where
  "disconnect_room sid cm =
     (case cm of (code, meta) \<Rightarrow>
        (case map_of (participants meta) sid of
           None \<Rightarrow> ((code, meta), [])
         | Some p \<Rightarrow>
             (let meta1 = meta\<lparr>participants := AList.delete sid (participants meta)\<rparr>;
                  user_left = \<lparr>e_event = ''user-left'',
                               e_data = PDict [(''sid'', PStr sid), (''name'', pname p)],
                               e_to = PNone, e_room = PStr code, e_skip_sid = PNone\<rparr>;
                  host_left = \<lparr>e_event = ''host-left'',
                               e_data = PDict [(''msg'', PStr ''host disconnected'')],
                               e_to = PNone, e_room = PStr code, e_skip_sid = PNone\<rparr>
              in if host_sid meta1 = PStr sid
                 then ((code, meta1\<lparr>host_sid := PNone\<rparr>), [user_left, host_left])
                 else ((code, meta1), [user_left]))))"

fun disconnect_loop ::
  "string \<Rightarrow> (string \<times> room_meta) list \<Rightarrow> (string \<times> room_meta) list \<times> emission list" where
  "disconnect_loop sid [] = ([], [])"
| "disconnect_loop sid (cm # rest) =
     (case disconnect_room sid cm of (cm1, es1) \<Rightarrow>
        (case disconnect_loop sid rest of (rest1, es2) \<Rightarrow> (cm1 # rest1, es1 @ es2)))"

definition disconnect :: "server \<Rightarrow> string \<Rightarrow> outcome" where
  "disconnect srv sid =
     (case disconnect_loop sid (rooms srv) of (rs, es) \<Rightarrow> Inr (srv\<lparr>rooms := rs\<rparr>, es))"

definition create_room_client :: "server \<Rightarrow> string \<Rightarrow> pydict \<Rightarrow> rng \<Rightarrow> real \<Rightarrow> outcome" where
  "create_room_client srv sid data g now =
     (case gen_room_code ROOM_CODE_LEN g of (code, g1) \<Rightarrow>
        Inr (srv\<lparr>rooms := AList.update code (fresh_room now) (rooms srv)\<rparr>,
             [\<lparr>e_event = ''room-created'', e_data = PDict [(''room'', PStr code)],
               e_to = PStr sid, e_room = PNone, e_skip_sid = PNone\<rparr>]))"

definition join_room :: "server \<Rightarrow> string \<Rightarrow> pydict \<Rightarrow> outcome" where
  "join_room srv sid data =
     (case str_upper (dict_get data ''room'' (PStr [])) of
        Inl err \<Rightarrow> Inl err
      | Inr room \<Rightarrow>
          (let name = dict_get data ''name'' (PStr ''Guest'');
               role = dict_get data ''role'' (PStr ''viewer'')
           in case map_of (rooms srv) room of
                None \<Rightarrow>
                  Inr (srv, [\<lparr>e_event = ''join-error'',
                              e_data = PDict [(''error'', PStr ''room-not-found'')],
                              e_to = PStr sid, e_room = PNone, e_skip_sid = PNone\<rparr>])
              | Some meta \<Rightarrow>
                  (let meta1 = meta\<lparr>participants :=
                                 AList.update sid \<lparr>psid = sid, pname = name, prole = role\<rparr>
                                   (participants meta)\<rparr>;
                       user_joined = \<lparr>e_event = ''user-joined'',
                                      e_data = PDict [(''sid'', PStr sid), (''name'', name), (''role'', role)],
                                      e_to = PNone, e_room = PStr room, e_skip_sid = PNone\<rparr>
                   in if role = PStr ''host''
                      then
                        Inr (enter_room sid room
                               (srv\<lparr>rooms := AList.update room (meta1\<lparr>host_sid := PStr sid\<rparr>) (rooms srv)\<rparr>),
                             [user_joined,
                              \<lparr>e_event = ''joined'',
                               e_data = PDict [(''room'', PStr room),
                                               (''meta'', PDict [(''host_online'', PBool True)])],
                               e_to = PStr sid, e_room = PNone, e_skip_sid = PNone\<rparr>])
                      else
                        Inr (enter_room sid room (srv\<lparr>rooms := AList.update room meta1 (rooms srv)\<rparr>),
                             [user_joined]
                             @ (if truthy (host_sid meta1)
                                then [\<lparr>e_event = ''viewer-joined'',
                                       e_data = PDict [(''viewer_sid'', PStr sid), (''viewer_name'', name)],
                                       e_to = host_sid meta1, e_room = PNone, e_skip_sid = PNone\<rparr>]
                                else [])
                             @ [\<lparr>e_event = ''joined'',
                                 e_data = PDict [(''room'', PStr room),
                                                 (''meta'', PDict [(''host_online'',
                                                                    PBool (truthy (host_sid meta1)))])],
                                 e_to = PStr sid, e_room = PNone, e_skip_sid = PNone\<rparr>]))))"

definition webrtc_offer :: "server \<Rightarrow> string \<Rightarrow> pydict \<Rightarrow> outcome" where
  "webrtc_offer srv sid data =
     (case str_upper (dict_get data ''room'' (PStr [])) of
        Inl err \<Rightarrow> Inl err
      | Inr room \<Rightarrow>
          (let target = dict_get data ''to'' PNone;
               body = PDict [(''from'', PStr sid), (''offer'', dict_get data ''offer'' PNone)]
           in if truthy target
              then Inr (srv, [\<lparr>e_event = ''webrtc_offer'', e_data = body,
                               e_to = target, e_room = PNone, e_skip_sid = PNone\<rparr>])
              else Inr (srv, [\<lparr>e_event = ''webrtc_offer'', e_data = body,
                               e_to = PNone, e_room = PStr room, e_skip_sid = PStr sid\<rparr>])))"

definition webrtc_answer :: "server \<Rightarrow> string \<Rightarrow> pydict \<Rightarrow> outcome" where
  "webrtc_answer srv sid data =
     (let to = dict_get data ''to'' PNone
      in if truthy to
         then Inr (srv, [\<lparr>e_event = ''webrtc_answer'',
                          e_data = PDict [(''from'', PStr sid), (''answer'', dict_get data ''answer'' PNone)],
                          e_to = to, e_room = PNone, e_skip_sid = PNone\<rparr>])
         else Inr (srv, []))"

definition webrtc_ice :: "server \<Rightarrow> string \<Rightarrow> pydict \<Rightarrow> outcome" where
  "webrtc_ice srv sid data =
     (let to = dict_get data ''to'' PNone;
          room = dict_get data ''room'' PNone;
          body = PDict [(''from'', PStr sid), (''candidate'', dict_get data ''candidate'' PNone)]
      in if truthy to
         then Inr (srv, [\<lparr>e_event = ''webrtc_ice'', e_data = body,
                          e_to = to, e_room = PNone, e_skip_sid = PNone\<rparr>])
         else Inr (srv, [\<lparr>e_event = ''webrtc_ice'', e_data = body,
                          e_to = PNone, e_room = room, e_skip_sid = PStr sid\<rparr>]))"

definition chat_message :: "server \<Rightarrow> string \<Rightarrow> pydict \<Rightarrow> outcome" where
  "chat_message srv sid data =
     (case str_upper (dict_get data ''room'' (PStr [])) of
        Inl err \<Rightarrow> Inl err
      | Inr room \<Rightarrow>
          Inr (srv, [\<lparr>e_event = ''chat-message'',
                      e_data = PDict [(''from'', PStr sid), (''name'', dict_get data ''name'' PNone),
                                      (''text'', dict_get data ''text'' PNone)],
                      e_to = PNone, e_room = PStr room, e_skip_sid = PNone\<rparr>]))"

definition host_state :: "server \<Rightarrow> string \<Rightarrow> pydict \<Rightarrow> outcome" where
  "host_state srv sid data =
     (case str_upper (dict_get data ''room'' (PStr [])) of
        Inl err \<Rightarrow> Inl err
      | Inr room \<Rightarrow>
          (case map_of (rooms srv) room of
             None \<Rightarrow> Inr (srv, [])
           | Some meta \<Rightarrow>
               if host_sid meta = PStr sid
               then Inr (srv\<lparr>rooms := AList.update room (meta\<lparr>meta_host_state := Some data\<rparr>) (rooms srv)\<rparr>,
                         [\<lparr>e_event = ''host-state'', e_data = PDict data,
                           e_to = PNone, e_room = PStr room, e_skip_sid = PNone\<rparr>])
               else Inr (srv, [])))"

section \<open>Runs of the server\<close>

text \<open>
  Everything that can happen to the server: a request on an HTTP route, a session
  connecting or going away, and an event sent by a session. The random draws and the
  clock reading an operation uses come with it.
\<close>

datatype event =
    Health
  | CreateRoom rng real
  | GetRoom string
  | Connect string
  | Disconnect string
  | CreateRoomClient string pydict rng real
  | JoinRoom string pydict
  | WebrtcOffer string pydict
  | WebrtcAnswer string pydict
  | WebrtcIce string pydict
  | ChatMessage string pydict
  | HostState string pydict

definition run :: "server \<Rightarrow> event \<Rightarrow> outcome" where
  "run srv ev =
     (case ev of
        Health \<Rightarrow> Inr (srv, [])
      | CreateRoom g now \<Rightarrow> Inr (fst (create_room srv g now), [])
      | GetRoom room_code \<Rightarrow> Inr (srv, [])
      | Connect sid \<Rightarrow> connect (sio_connect sid srv) sid
      | Disconnect sid \<Rightarrow>
          (case disconnect srv sid of
             Inl err \<Rightarrow> Inl err
           | Inr (srv1, es) \<Rightarrow> Inr (sio_leave_all sid srv1, es))
      | CreateRoomClient sid data g now \<Rightarrow> create_room_client srv sid data g now
      | JoinRoom sid data \<Rightarrow> join_room srv sid data
      | WebrtcOffer sid data \<Rightarrow> webrtc_offer srv sid data
      | WebrtcAnswer sid data \<Rightarrow> webrtc_answer srv sid data
      | WebrtcIce sid data \<Rightarrow> webrtc_ice srv sid data
      | ChatMessage sid data \<Rightarrow> chat_message srv sid data
      | HostState sid data \<Rightarrow> host_state srv sid data)"

text \<open>A handler that raises does so before it has changed anything.\<close>

definition step :: "server \<Rightarrow> event \<Rightarrow> server" where
  "step srv ev = (case run srv ev of Inl err \<Rightarrow> srv | Inr (srv1, es) \<Rightarrow> srv1)"

inductive reachable :: "server \<Rightarrow> bool" where
  reachable_init: "reachable init_server"
| reachable_step: "reachable srv \<Longrightarrow> reachable (step srv ev)"

text \<open>The sessions reached by each emission of an outcome, in the order of the emissions.\<close>

definition deliveries :: "server \<Rightarrow> outcome \<Rightarrow> string set list" where
  "deliveries srv out = (case out of Inl err \<Rightarrow> [] | Inr (srv1, es) \<Rightarrow> map (recipients srv) es)"

section \<open>Well-formed states\<close>

text \<open>
  What holds of every room of every state a run can reach: the code is in upper case, the
  participants are in the group of the room, no session is listed twice, and a host
  that is set is one of the participants.
\<close>

definition host_ok :: "room_meta \<Rightarrow> bool" where
  "host_ok meta =
     (case host_sid meta of
        PNone \<Rightarrow> True
      | PStr s \<Rightarrow> s \<in> fst ` set (participants meta)
      | _ \<Rightarrow> False)"

definition room_ok :: "server \<Rightarrow> string \<times> room_meta \<Rightarrow> bool" where
  "room_ok srv cm =
     (upper (fst cm) = fst cm
      \<and> fst ` set (participants (snd cm)) \<subseteq> groups srv (PStr (fst cm))
      \<and> distinct (map fst (participants (snd cm)))
      \<and> host_ok (snd cm))"

definition wf_server :: "server \<Rightarrow> bool" where
  "wf_server srv = (distinct (map fst (rooms srv)) \<and> list_all (room_ok srv) (rooms srv))"

section \<open>The codes a room creation draws\<close>

text \<open>The first \<open>k\<close> codes that successive calls of \<^verbatim>\<open>gen_room_code()\<close> return.\<close>

fun candidate_codes :: "nat \<Rightarrow> rng \<Rightarrow> string list" where
  "candidate_codes 0 g = []"
| "candidate_codes (Suc k) g =
     (case gen_room_code ROOM_CODE_LEN g of (c, g1) \<Rightarrow> c # candidate_codes k g1)"

section \<open>A run of the example scenario\<close>

text \<open>
  Room \<^verbatim>\<open>AB12C9\<close> with the host H and the viewers V1 and V2: the state, and the run
  that leads to it.
\<close>

definition demo_room :: room_meta where
  "demo_room =
     \<lparr>host_sid = PStr ''H'',
      participants =
        [(''H'', \<lparr>psid = ''H'', pname = PStr ''Hana'', prole = PStr ''host''\<rparr>),
         (''V1'', \<lparr>psid = ''V1'', pname = PStr ''Vik'', prole = PStr ''viewer''\<rparr>),
         (''V2'', \<lparr>psid = ''V2'', pname = PStr ''Guest'', prole = PStr ''viewer''\<rparr>)],
      created_at = 0,
      meta_host_state = None\<rparr>"

definition demo_groups :: "pyval \<Rightarrow> string set" where
  "demo_groups g =
     (if g = PNone \<or> g = PStr ''AB12C9'' then {''H'', ''V1'', ''V2''}
      else if g = PStr ''H'' then {''H''}
      else if g = PStr ''V1'' then {''V1''}
      else if g = PStr ''V2'' then {''V2''}
      else {})"

definition demo_server :: server where
  "demo_server = \<lparr>rooms = [(''AB12C9'', demo_room)], groups = demo_groups\<rparr>"

definition demo_rng :: rng where
  "demo_rng i = [0, 1, 27, 28, 2, 35] ! (i mod 6)"

definition demo_run :: "event list" where
  "demo_run =
     [Connect ''H'', Connect ''V1'', Connect ''V2'',
      CreateRoom demo_rng 0,
      JoinRoom ''H'' [(''room'', PStr ''ab12c9''), (''name'', PStr ''Hana''), (''role'', PStr ''host'')],
      JoinRoom ''V1'' [(''room'', PStr ''AB12C9''), (''name'', PStr ''Vik'')],
      JoinRoom ''V2'' [(''room'', PStr ''AB12C9'')]]"

definition demo_rng2 :: rng where
  "demo_rng2 i = (if i < 6 then demo_rng i else 25)"

section \<open>Every reachable state is well formed\<close>

lemma set_update_subset: "set (AList.update k v al) \<subseteq> insert (k, v) (set al)"
  by (induction al) auto

lemma wf_init: "wf_server init_server"
  by (simp add: wf_server_def init_server_def)

lemma room_ok_cong:
  "groups srv1 = groups srv \<Longrightarrow> room_ok srv1 cm = room_ok srv cm"
  by (simp add: room_ok_def)

lemma wf_update:
  assumes "wf_server srv" and "room_ok srv (code, meta)"
  shows "wf_server (srv\<lparr>rooms := AList.update code meta (rooms srv)\<rparr>)"
proof -
  let ?s = "srv\<lparr>rooms := AList.update code meta (rooms srv)\<rparr>"
  have d: "distinct (map fst (rooms ?s))"
    using assms(1) by (simp add: wf_server_def distinct_update)
  have "room_ok srv cm" if "cm \<in> set (AList.update code meta (rooms srv))" for cm
  proof -
    from that set_update_subset[of code meta "rooms srv"]
    have "cm = (code, meta) \<or> cm \<in> set (rooms srv)" by blast
    then show ?thesis using assms by (auto simp: wf_server_def list_all_iff)
  qed
  then have "list_all (room_ok ?s) (rooms ?s)"
    by (simp add: list_all_iff room_ok_cong[of ?s srv])
  then show ?thesis using d by (simp add: wf_server_def)
qed

lemma room_ok_mono:
  assumes "room_ok srv cm" and "groups srv (PStr (fst cm)) \<subseteq> G (PStr (fst cm))"
  shows "room_ok (srv\<lparr>groups := G\<rparr>) cm"
  using assms unfolding room_ok_def by simp blast

lemma wf_groups_mono:
  assumes "wf_server srv" and "\<And>g. groups srv g \<subseteq> G g"
  shows "wf_server (srv\<lparr>groups := G\<rparr>)"
proof -
  have "room_ok (srv\<lparr>groups := G\<rparr>) cm" if "cm \<in> set (rooms srv)" for cm
    using that assms by (intro room_ok_mono) (auto simp: wf_server_def list_all_iff)
  then show ?thesis using assms(1) by (simp add: wf_server_def list_all_iff)
qed

lemma fresh_room_ok: "upper code = code \<Longrightarrow> room_ok srv (code, fresh_room now)"
  by (simp add: room_ok_def fresh_room_def host_ok_def)

lemma upper_char_ALPHABET: "c \<in> set ALPHABET \<Longrightarrow> upper_char c = c"
  by (auto simp: ALPHABET_def upper_char_def)

lemma gen_room_code_chars: "set (fst (gen_room_code n g)) \<subseteq> set ALPHABET"
proof (induction n arbitrary: g)
  case 0
  then show ?case by simp
next
  case (Suc n)
  have "ALPHABET ! (g 0 mod length ALPHABET) \<in> set ALPHABET"
    by (rule nth_mem) (simp add: ALPHABET_def)
  then show ?case using Suc[of "\<lambda>i. g (Suc i)"]
    by (auto simp: random_choice_def split: prod.splits)
qed

lemma gen_room_code_upper: "gen_room_code n g = (c, g1) \<Longrightarrow> upper c = c"
  using gen_room_code_chars[of n g] unfolding upper_def
  by (intro map_idI upper_char_ALPHABET) auto

lemma create_room_loop_upper:
  "upper code = code \<Longrightarrow> upper (fst (create_room_loop k rs code g)) = fst (create_room_loop k rs code g)"
  by (induction k arbitrary: code g) (auto split: prod.splits dest: gen_room_code_upper)

lemma wf_create_room:
  assumes "wf_server srv"
  shows "wf_server (fst (create_room srv g now))"
proof -
  obtain code g1 where l: "create_room_loop 5 (rooms srv) [] g = (code, g1)"
    by (cases "create_room_loop 5 (rooms srv) [] g")
  have "upper code = code"
    using create_room_loop_upper[of "[]" 5 "rooms srv" g] l by (simp add: upper_def)
  then show ?thesis
    using l by (simp add: create_room_def wf_update[OF assms fresh_room_ok])
qed

lemma wf_create_room_client:
  assumes "wf_server srv" and "create_room_client srv sid data g now = Inr (srv1, es)"
  shows "wf_server srv1"
proof -
  obtain code g1 where l: "gen_room_code ROOM_CODE_LEN g = (code, g1)"
    by (cases "gen_room_code ROOM_CODE_LEN g")
  show ?thesis
    using l assms(2) wf_update[OF assms(1) fresh_room_ok[OF gen_room_code_upper[OF l]]]
    by (auto simp add: create_room_client_def)
qed

lemma wf_map_of:
  "wf_server srv \<Longrightarrow> map_of (rooms srv) code = Some meta \<Longrightarrow> room_ok srv (code, meta)"
  by (auto simp: wf_server_def list_all_iff dest: map_of_SomeD)

lemma wf_host_state:
  assumes "wf_server srv" and "host_state srv sid data = Inr (srv1, es)"
  shows "wf_server srv1"
proof (cases "str_upper (dict_get data ''room'' (PStr []))")
  case (Inl err)
  then show ?thesis using assms(2) by (simp add: host_state_def)
next
  case (Inr room)
  show ?thesis
  proof (cases "map_of (rooms srv) room")
    case None
    then show ?thesis using assms Inr by (simp add: host_state_def)
  next
    case (Some meta)
    have ok: "room_ok srv (room, meta\<lparr>meta_host_state := Some data\<rparr>)"
      using wf_map_of[OF assms(1) Some]
      by (simp add: room_ok_def host_ok_def split: pyval.splits)
    show ?thesis
      using assms Inr Some wf_update[OF assms(1) ok]
      by (simp add: host_state_def split: if_splits)
  qed
qed

lemma enter_room_rooms_update:
  "enter_room sid room (srv\<lparr>rooms := rs\<rparr>) = (enter_room sid room srv)\<lparr>rooms := rs\<rparr>"
  by (simp add: enter_room_def)

lemma rooms_enter_room: "rooms (enter_room sid room srv) = rooms srv"
  by (simp add: enter_room_def)

lemma groups_enter_room:
  "groups (enter_room sid room srv) g = (if g = PStr room then insert sid (groups srv g) else groups srv g)"
  by (simp add: enter_room_def)

lemma wf_enter_room: "wf_server srv \<Longrightarrow> wf_server (enter_room sid room srv)"
  unfolding enter_room_def by (rule wf_groups_mono) auto

lemma room_ok_join:
  assumes "room_ok srv (room, meta)"
    and "h = PStr sid \<or> h = host_sid meta"
  shows "room_ok (enter_room sid room srv)
           (room, meta\<lparr>participants := AList.update sid p (participants meta), host_sid := h\<rparr>)"
proof -
  have keys: "fst ` set (AList.update sid p (participants meta))
                \<subseteq> groups (enter_room sid room srv) (PStr room)"
    using assms(1) by (auto simp: dom_update room_ok_def groups_enter_room)
  have dist: "distinct (map fst (AList.update sid p (participants meta)))"
    using assms(1) by (simp add: room_ok_def distinct_update)
  have host: "host_ok (meta\<lparr>participants := AList.update sid p (participants meta), host_sid := h\<rparr>)"
    using assms by (auto simp: room_ok_def host_ok_def dom_update split: pyval.splits)
  show ?thesis using keys dist host assms(1) by (simp add: room_ok_def)
qed

lemma wf_join_room:
  assumes "wf_server srv" and "join_room srv sid data = Inr (srv1, es)"
  shows "wf_server srv1"
proof (cases "str_upper (dict_get data ''room'' (PStr []))")
  case (Inl err)
  then show ?thesis using assms(2) by (simp add: join_room_def)
next
  case (Inr room)
  show ?thesis
  proof (cases "map_of (rooms srv) room")
    case None
    then show ?thesis using assms Inr by (simp add: join_room_def Let_def)
  next
    case (Some meta)
    let ?p = "\<lparr>psid = sid, pname = dict_get data ''name'' (PStr ''Guest''),
               prole = dict_get data ''role'' (PStr ''viewer'')\<rparr>"
    have ok: "room_ok srv (room, meta)" by (rule wf_map_of[OF assms(1) Some])
    have i: "wf_server (enter_room sid room srv)" by (rule wf_enter_room[OF assms(1)])
    have a: "wf_server ((enter_room sid room srv)\<lparr>rooms := AList.update room
                (meta\<lparr>participants := AList.update sid ?p (participants meta), host_sid := h\<rparr>)
                (rooms (enter_room sid room srv))\<rparr>)"
      if "h = PStr sid \<or> h = host_sid meta" for h
      by (rule wf_update[OF i room_ok_join[OF ok that]])
    show ?thesis
    proof (cases "dict_get data ''role'' (PStr ''viewer'') = PStr ''host''")
      case True
      then show ?thesis
        using assms(2) Inr Some a[of "PStr sid"]
        by (simp add: join_room_def Let_def enter_room_rooms_update rooms_enter_room)
    next
      case False
      then show ?thesis
        using assms(2) Inr Some a[of "host_sid meta"]
        by (simp add: join_room_def Let_def enter_room_rooms_update rooms_enter_room)
    qed
  qed
qed

lemma disconnect_loop_rooms:
  "fst (disconnect_loop sid rs) = map (\<lambda>cm. fst (disconnect_room sid cm)) rs"
  by (induction rs) (auto split: prod.splits)

lemma disconnect_loop_emissions:
  "snd (disconnect_loop sid rs) = concat (map (\<lambda>cm. snd (disconnect_room sid cm)) rs)"
  by (induction rs) (auto split: prod.splits)

lemma disconnect_room_code: "fst (fst (disconnect_room sid cm)) = fst cm"
  by (cases cm) (simp add: disconnect_room_def Let_def split: option.splits)

lemma disconnect_loop_keys: "map fst (fst (disconnect_loop sid rs)) = map fst rs"
  by (simp add: disconnect_loop_rooms comp_def disconnect_room_code)

lemma disconnect_room_participants:
  "participants (snd (fst (disconnect_room sid cm))) = AList.delete sid (participants (snd cm))"
proof (cases cm)
  case (Pair code meta)
  show ?thesis
  proof (cases "map_of (participants meta) sid")
    case None
    then have "sid \<notin> fst ` set (participants meta)" by (simp add: map_of_eq_None_iff)
    then show ?thesis using Pair None by (simp add: disconnect_room_def)
  next
    case (Some p)
    then show ?thesis using Pair by (simp add: disconnect_room_def Let_def)
  qed
qed

lemma disconnect_room_host:
  "host_sid (snd (fst (disconnect_room sid cm))) =
     (if sid \<in> fst ` set (participants (snd cm)) \<and> host_sid (snd cm) = PStr sid
      then PNone else host_sid (snd cm))"
proof (cases cm)
  case (Pair code meta)
  show ?thesis
  proof (cases "map_of (participants meta) sid")
    case None
    then have "sid \<notin> fst ` set (participants meta)" by (simp add: map_of_eq_None_iff)
    then show ?thesis using Pair None by (simp add: disconnect_room_def)
  next
    case (Some p)
    then have "sid \<in> fst ` set (participants meta)" by (metis map_of_eq_None_iff option.distinct(1))
    then show ?thesis using Pair Some by (simp add: disconnect_room_def Let_def)
  qed
qed

lemma room_ok_disconnect:
  assumes "room_ok srv cm"
  shows "room_ok (sio_leave_all sid srv) (fst (disconnect_room sid cm))"
proof -
  let ?cm = "fst (disconnect_room sid cm)"
  have keys: "fst ` set (participants (snd ?cm)) = fst ` set (participants (snd cm)) - {sid}"
    by (auto simp: disconnect_room_participants delete_keys simp flip: set_map)
  have k: "fst ` set (participants (snd ?cm)) \<subseteq> groups (sio_leave_all sid srv) (PStr (fst ?cm))"
    using assms unfolding keys by (auto simp: room_ok_def sio_leave_all_def disconnect_room_code)
  have d: "distinct (map fst (participants (snd ?cm)))"
    using assms by (simp add: room_ok_def disconnect_room_participants distinct_delete)
  have h: "host_ok (snd ?cm)"
    using assms unfolding host_ok_def keys disconnect_room_host room_ok_def
    by (auto split: pyval.splits)
  show ?thesis using k d h assms by (simp add: room_ok_def disconnect_room_code)
qed

lemma wf_disconnect:
  assumes "wf_server srv" and "disconnect srv sid = Inr (srv1, es)"
  shows "wf_server (sio_leave_all sid srv1)"
proof -
  have r: "rooms srv1 = map (\<lambda>cm. fst (disconnect_room sid cm)) (rooms srv)"
    and g: "groups srv1 = groups srv"
    using assms(2) disconnect_loop_rooms[of sid "rooms srv"]
    by (auto simp: disconnect_def split: prod.splits)
  have l: "sio_leave_all sid srv1 = (sio_leave_all sid srv)\<lparr>rooms := rooms srv1\<rparr>"
    using g by (simp add: sio_leave_all_def)
  have d: "distinct (map fst (rooms srv1))"
    using assms(1) by (simp add: r comp_def disconnect_room_code wf_server_def)
  have "room_ok (sio_leave_all sid srv) cm1" if "cm1 \<in> set (rooms srv1)" for cm1
  proof -
    from that obtain cm where "cm \<in> set (rooms srv)" and "cm1 = fst (disconnect_room sid cm)"
      unfolding r by auto
    then show ?thesis using assms(1) room_ok_disconnect by (simp add: wf_server_def list_all_iff)
  qed
  then have "list_all (room_ok (sio_leave_all sid srv1)) (rooms srv1)"
    by (simp add: list_all_iff l room_ok_def)
  then show ?thesis using d by (simp add: wf_server_def sio_leave_all_def)
qed

lemma wf_sio_connect: "wf_server srv \<Longrightarrow> wf_server (sio_connect sid srv)"
  unfolding sio_connect_def by (rule wf_groups_mono) auto

lemma wf_step: "wf_server srv \<Longrightarrow> wf_server (step srv ev)"
proof (cases ev)
  case (Disconnect sid)
  assume "wf_server srv"
  then show ?thesis using Disconnect wf_disconnect[of srv sid]
    by (simp add: step_def run_def split: sum.splits prod.splits)
next
  case (JoinRoom sid data)
  assume "wf_server srv"
  then show ?thesis using JoinRoom wf_join_room[of srv sid data]
    by (simp add: step_def run_def split: sum.splits prod.splits)
next
  case (HostState sid data)
  assume "wf_server srv"
  then show ?thesis using HostState wf_host_state[of srv sid data]
    by (simp add: step_def run_def split: sum.splits prod.splits)
next
  case (CreateRoomClient sid data g now)
  assume "wf_server srv"
  then show ?thesis using CreateRoomClient wf_create_room_client[of srv sid data g now]
    by (simp add: step_def run_def split: sum.splits prod.splits)
qed (simp_all add: step_def run_def wf_create_room wf_sio_connect connect_def
      webrtc_offer_def webrtc_answer_def webrtc_ice_def chat_message_def Let_def
      split: sum.splits prod.splits if_splits)

lemma reachable_wf: "reachable srv \<Longrightarrow> wf_server srv"
  by (induction rule: reachable.induct) (simp_all add: wf_init wf_step)

section \<open>The example run\<close>

lemma is_ascii_demo:
  "is_ascii []"
  "is_ascii ''ab12c9''"
  "is_ascii ''AB12C9''"
  "is_ascii ''zzzzzz''"
  by (simp_all add: is_ascii_def)

lemma upper_demo: "upper ''ab12c9'' = ''AB12C9''"
  by code_simp

lemma upper_demo2: "upper ''AB12C9'' = ''AB12C9''"
  by code_simp

lemma demo_code: "fst (gen_room_code ROOM_CODE_LEN demo_rng) = ''AB12C9''"
  by code_simp

lemma create_room_loop_free:
  "map_of rs (fst (gen_room_code ROOM_CODE_LEN g)) = None \<Longrightarrow>
   create_room_loop (Suc k) rs code g = gen_room_code ROOM_CODE_LEN g"
  by (cases "gen_room_code ROOM_CODE_LEN g") simp

lemma create_room_state:
  "fst (create_room srv g now) =
     srv\<lparr>rooms := AList.update (fst (create_room_loop 5 (rooms srv) [] g)) (fresh_room now) (rooms srv)\<rparr>"
  by (simp add: create_room_def split: prod.splits)

lemma step_connect: "step srv (Connect sid) = sio_connect sid srv"
  by (simp add: step_def run_def connect_def)

lemma step_create_room: "step srv (CreateRoom g now) = fst (create_room srv g now)"
  by (simp add: step_def run_def)

lemma step_join_room:
  assumes "dict_get data ''room'' (PStr []) = PStr r"
    and "map_of (rooms srv) (upper r) = Some meta"
  shows "step srv (JoinRoom sid data) =
     enter_room sid (upper r)
       (srv\<lparr>rooms := AList.update (upper r)
          (meta\<lparr>participants :=
                  AList.update sid
                    \<lparr>psid = sid, pname = dict_get data ''name'' (PStr ''Guest''),
                     prole = dict_get data ''role'' (PStr ''viewer'')\<rparr> (participants meta),
                host_sid := (if dict_get data ''role'' (PStr ''viewer'') = PStr ''host''
                             then PStr sid else host_sid meta)\<rparr>)
          (rooms srv)\<rparr>)"
  using assms by (simp add: step_def run_def join_room_def str_upper_def Let_def)

lemma demo_reach: "foldl step init_server demo_run = demo_server"
proof -
  let ?G3 = "\<lambda>g. if g = PNone then {''H'', ''V1'', ''V2''}
      else if g = PStr ''H'' then {''H''}
      else if g = PStr ''V1'' then {''V1''}
      else if g = PStr ''V2'' then {''V2''}
      else {}"
  let ?s3 = "\<lparr>rooms = [], groups = ?G3\<rparr>"
  let ?s4 = "\<lparr>rooms = [(''AB12C9'', fresh_room 0)], groups = ?G3\<rparr>"
  let ?pH = "(''H'', \<lparr>psid = ''H'', pname = PStr ''Hana'', prole = PStr ''host''\<rparr>)"
  let ?pV1 = "(''V1'', \<lparr>psid = ''V1'', pname = PStr ''Vik'', prole = PStr ''viewer''\<rparr>)"
  let ?pV2 = "(''V2'', \<lparr>psid = ''V2'', pname = PStr ''Guest'', prole = PStr ''viewer''\<rparr>)"
  let ?m = "\<lambda>ps. \<lparr>host_sid = PStr ''H'', participants = ps, created_at = 0, meta_host_state = None\<rparr>"
  let ?G = "\<lambda>A g. if g = PStr ''AB12C9'' then A else ?G3 g"
  let ?s5 = "\<lparr>rooms = [(''AB12C9'', ?m [?pH])], groups = ?G {''H''}\<rparr>"
  let ?s6 = "\<lparr>rooms = [(''AB12C9'', ?m [?pH, ?pV1])], groups = ?G {''H'', ''V1''}\<rparr>"
  let ?s7 = "\<lparr>rooms = [(''AB12C9'', ?m [?pH, ?pV1, ?pV2])], groups = ?G {''H'', ''V1'', ''V2''}\<rparr>"
  have a3: "step (step (step init_server (Connect ''H'')) (Connect ''V1'')) (Connect ''V2'') = ?s3"
    by (auto simp: step_connect sio_connect_def init_server_def fun_eq_iff)
  have "fst (create_room_loop 5 [] [] demo_rng) = ''AB12C9''"
    using create_room_loop_free[of "[]" demo_rng 4 "[]"] demo_code by simp
  then have a4: "step ?s3 (CreateRoom demo_rng 0) = ?s4"
    by (simp add: step_create_room create_room_state)
  have a5: "step ?s4 (JoinRoom ''H'' [(''room'', PStr ''ab12c9''), (''name'', PStr ''Hana''), (''role'', PStr ''host'')]) = ?s5"
    by (subst step_join_room[where r = "''ab12c9''" and meta = "fresh_room 0"])
       (auto simp: dict_get_def upper_demo enter_room_def fresh_room_def fun_eq_iff)
  have a6: "step ?s5 (JoinRoom ''V1'' [(''room'', PStr ''AB12C9''), (''name'', PStr ''Vik'')]) = ?s6"
    by (subst step_join_room[where r = "''AB12C9''" and meta = "?m [?pH]"])
       (auto simp: dict_get_def upper_demo2 enter_room_def fun_eq_iff)
  have a7: "step ?s6 (JoinRoom ''V2'' [(''room'', PStr ''AB12C9'')]) = ?s7"
    by (subst step_join_room[where r = "''AB12C9''" and meta = "?m [?pH, ?pV1]"])
       (auto simp: dict_get_def upper_demo2 enter_room_def fun_eq_iff)
  have "?s7 = demo_server"
    by (auto simp: demo_server_def demo_room_def demo_groups_def fun_eq_iff)
  then show ?thesis
    by (simp add: demo_run_def a3 a4 a5 a6 a7 del: fun_upd_apply)
qed

lemma reachable_foldl: "reachable srv \<Longrightarrow> reachable (foldl step srv evs)"
  by (induction evs arbitrary: srv) (simp_all add: reachable_step)

lemma reachable_demo: "reachable demo_server"
  using reachable_foldl[OF reachable_init, of demo_run] by (simp add: demo_reach)

section \<open>Facts about the example state\<close>

lemma demo_rooms_lookup: "map_of (rooms demo_server) ''AB12C9'' = Some demo_room"
  by (simp add: demo_server_def)

lemma demo_rooms: "rooms demo_server = [(''AB12C9'', demo_room)]"
  by (simp add: demo_server_def)

lemma demo_groups_simps:
  "groups demo_server (PStr ''AB12C9'') = {''H'', ''V1'', ''V2''}"
  "groups demo_server PNone = {''H'', ''V1'', ''V2''}"
  "groups demo_server (PStr ''H'') = {''H''}"
  "groups demo_server (PStr ''V1'') = {''V1''}"
  "groups demo_server (PStr ''V2'') = {''V2''}"
  "groups demo_server (PStr ''ab12c9'') = {}"
  "groups demo_server (PStr ''ZZZZZZ'') = {}"
  by (simp_all add: demo_server_def demo_groups_def)

lemma participants_in_group:
  assumes "reachable srv" and "map_of (rooms srv) code = Some meta"
  shows "fst ` set (participants meta) \<subseteq> groups srv (PStr code)"
  using wf_map_of[OF reachable_wf[OF assms(1)] assms(2)] by (simp add: room_ok_def)

lemma keys_update: "set (map fst al) \<subseteq> set (map fst (AList.update k v al))"
  by (simp add: dom_update subset_insertI)

lemma keys_run:
  assumes "run srv ev = Inr (srv1, es)"
  shows "set (map fst (rooms srv)) \<subseteq> set (map fst (rooms srv1))"
proof (cases ev)
  case (CreateRoom g now)
  then have "rooms srv1 = AList.update (fst (create_room_loop 5 (rooms srv) [] g)) (fresh_room now) (rooms srv)"
    using assms by (auto simp: run_def create_room_state)
  then show ?thesis using keys_update by metis
next
  case (Disconnect sid)
  then have "map fst (rooms srv1) = map fst (rooms srv)"
    using assms disconnect_loop_keys[of sid "rooms srv"]
    by (auto simp: run_def disconnect_def sio_leave_all_def split: prod.splits)
  then show ?thesis by simp
next
  case (CreateRoomClient sid data g now)
  then have "\<exists>k v. rooms srv1 = AList.update k v (rooms srv)"
    using assms by (fastforce simp: run_def create_room_client_def split: prod.splits)
  then show ?thesis using keys_update by metis
next
  case (JoinRoom sid data)
  then have "rooms srv1 = rooms srv \<or> (\<exists>k v. rooms srv1 = AList.update k v (rooms srv))"
    using assms
    by (fastforce simp: run_def join_room_def Let_def enter_room_def
        split: sum.splits option.splits if_splits)
  then show ?thesis using keys_update by (metis subset_refl)
next
  case (HostState sid data)
  then have "rooms srv1 = rooms srv \<or> (\<exists>k v. rooms srv1 = AList.update k v (rooms srv))"
    using assms
    by (fastforce simp: run_def host_state_def split: sum.splits option.splits if_splits)
  then show ?thesis using keys_update by (metis subset_refl)
qed (use assms in \<open>auto simp: run_def connect_def sio_connect_def webrtc_offer_def webrtc_answer_def
      webrtc_ice_def chat_message_def Let_def split: sum.splits if_splits\<close>)

lemma map_of_map_keep_key:
  assumes "\<And>cm. fst (f cm) = fst cm"
  shows "map_of (map f rs) k = map_option (\<lambda>v. snd (f (k, v))) (map_of rs k)"
proof (induction rs)
  case Nil
  then show ?case by simp
next
  case (Cons cm rs)
  obtain c m where cm: "cm = (c, m)" by (cases cm)
  obtain c1 m1 where f: "f (c, m) = (c1, m1)" by (cases "f (c, m)")
  have "c1 = c" using assms[of "(c, m)"] f by simp
  then show ?case using Cons cm f by simp
qed

lemma disconnect_room_present:
  assumes "map_of (participants meta) sid = Some p"
  shows "disconnect_room sid (code, meta) =
     (if host_sid meta = PStr sid
      then ((code, meta\<lparr>participants := AList.delete sid (participants meta), host_sid := PNone\<rparr>),
            [\<lparr>e_event = ''user-left'', e_data = PDict [(''sid'', PStr sid), (''name'', pname p)],
              e_to = PNone, e_room = PStr code, e_skip_sid = PNone\<rparr>,
             \<lparr>e_event = ''host-left'', e_data = PDict [(''msg'', PStr ''host disconnected'')],
              e_to = PNone, e_room = PStr code, e_skip_sid = PNone\<rparr>])
      else ((code, meta\<lparr>participants := AList.delete sid (participants meta)\<rparr>),
            [\<lparr>e_event = ''user-left'', e_data = PDict [(''sid'', PStr sid), (''name'', pname p)],
              e_to = PNone, e_room = PStr code, e_skip_sid = PNone\<rparr>]))"
  using assms by (simp add: disconnect_room_def Let_def)

lemma disconnect_room_emission_room:
  "e \<in> set (snd (disconnect_room sid cm)) \<Longrightarrow> e_room e = PStr (fst cm)"
  by (cases cm) (auto simp: disconnect_room_def Let_def split: option.splits if_splits)

lemma disconnect_loop_filter_other:
  assumes "code \<notin> fst ` set rs"
  shows "filter (\<lambda>e. P e \<and> e_room e = PStr code) (snd (disconnect_loop sid rs)) = []"
proof -
  have "e_room e \<noteq> PStr code" if "cm \<in> set rs" and "e \<in> set (snd (disconnect_room sid cm))" for cm e
    using disconnect_room_emission_room[OF that(2)] that(1) assms by force
  then show ?thesis
    by (auto simp: disconnect_loop_emissions filter_empty_conv)
qed

lemma disconnect_loop_emissions_Cons:
  "snd (disconnect_loop sid (cm # rs)) = snd (disconnect_room sid cm) @ snd (disconnect_loop sid rs)"
  unfolding disconnect_loop_emissions by simp

lemma disconnect_loop_filter_this:
  assumes "distinct (map fst rs)" and "(code, meta) \<in> set rs"
  shows "filter (\<lambda>e. P e \<and> e_room e = PStr code) (snd (disconnect_loop sid rs))
       = filter P (snd (disconnect_room sid (code, meta)))"
  using assms
proof (induction rs)
  case Nil
  then show ?case by simp
next
  case (Cons cm rs)
  show ?case
  proof (cases "cm = (code, meta)")
    case True
    then have "code \<notin> fst ` set rs" using Cons.prems(1) by simp
    then have rest: "filter (\<lambda>e. P e \<and> e_room e = PStr code) (snd (disconnect_loop sid rs)) = []"
      by (rule disconnect_loop_filter_other)
    have "filter (\<lambda>e. P e \<and> e_room e = PStr code) (snd (disconnect_room sid cm))
        = filter P (snd (disconnect_room sid cm))"
      using disconnect_room_emission_room[of _ sid cm] True
      by (intro filter_cong) auto
    then show ?thesis using rest True by (simp add: disconnect_loop_emissions_Cons del: disconnect_loop.simps)
  next
    case False
    then have in_rs: "(code, meta) \<in> set rs" using Cons.prems(2) by simp
    then have "code \<in> fst ` set rs" by (rule rev_image_eqI) simp
    then have "fst cm \<noteq> code" using Cons.prems(1) by auto
    then have "filter (\<lambda>e. P e \<and> e_room e = PStr code) (snd (disconnect_room sid cm)) = []"
      using disconnect_room_emission_room[of _ sid cm] by (auto simp: filter_empty_conv)
    then show ?thesis using Cons.IH in_rs Cons.prems(1)
      by (simp add: disconnect_loop_emissions_Cons del: disconnect_loop.simps)
  qed
qed

lemma gen_room_code_rng: "snd (gen_room_code n g) = (\<lambda>i. g (i + n))"
proof (induction n arbitrary: g)
  case 0
  then show ?case by simp
next
  case (Suc n)
  obtain cs g2 where r: "gen_room_code n (\<lambda>i. g (Suc i)) = (cs, g2)"
    by (cases "gen_room_code n (\<lambda>i. g (Suc i))")
  have "g2 = (\<lambda>i. g (Suc (i + n)))" using Suc[of "\<lambda>i. g (Suc i)"] r by simp
  then show ?case using r by (simp add: random_choice_def)
qed

lemma create_room_loop_candidates:
  "create_room_loop k rs code g =
     ((code # candidate_codes k g)
        ! min k (Suc (length (takeWhile (\<lambda>c. map_of rs c \<noteq> None) (candidate_codes k g)))),
      \<lambda>i. g (i + ROOM_CODE_LEN
                   * min k (Suc (length (takeWhile (\<lambda>c. map_of rs c \<noteq> None) (candidate_codes k g))))))"
proof (induction k arbitrary: code g)
  case 0
  then show ?case by simp
next
  case (Suc k)
  define P where "P = (\<lambda>c. map_of rs c \<noteq> None)"
  obtain c g1 where c: "gen_room_code ROOM_CODE_LEN g = (c, g1)"
    by (cases "gen_room_code ROOM_CODE_LEN g")
  have g1: "g1 = (\<lambda>i. g (i + ROOM_CODE_LEN))"
    using gen_room_code_rng[of ROOM_CODE_LEN g] c by simp
  have cs: "candidate_codes (Suc k) g = c # candidate_codes k g1" using c by simp
  define m where "m = min k (Suc (length (takeWhile P (candidate_codes k g1))))"
  show ?case
  proof (cases "P c")
    case False
    then have tw: "takeWhile P (candidate_codes (Suc k) g) = []" unfolding cs by simp
    have "create_room_loop (Suc k) rs code g = (c, g1)" using False c by (auto simp: P_def)
    moreover have "(code # candidate_codes (Suc k) g) ! min (Suc k) (Suc 0) = c"
      unfolding cs by simp
    moreover have "g1 = (\<lambda>i. g (i + ROOM_CODE_LEN * min (Suc k) (Suc 0)))" by (simp add: g1)
    ultimately show ?thesis unfolding P_def[symmetric] tw by simp
  next
    case True
    then have tw: "takeWhile P (candidate_codes (Suc k) g) = c # takeWhile P (candidate_codes k g1)"
      unfolding cs by simp
    have mn: "min (Suc k) (Suc (length (takeWhile P (candidate_codes (Suc k) g)))) = Suc m"
      unfolding tw m_def by simp
    have "create_room_loop (Suc k) rs code g = create_room_loop k rs c g1"
      using True c by (auto simp: P_def)
    also have "\<dots> = ((c # candidate_codes k g1) ! m, \<lambda>i. g1 (i + ROOM_CODE_LEN * m))"
      using Suc[of c g1] by (simp add: P_def m_def)
    also have "(c # candidate_codes k g1) ! m = (code # candidate_codes (Suc k) g) ! Suc m"
      unfolding cs by simp
    also have "(\<lambda>i. g1 (i + ROOM_CODE_LEN * m)) = (\<lambda>i. g (i + ROOM_CODE_LEN * Suc m))"
      by (simp add: g1 ac_simps)
    finally show ?thesis unfolding P_def[symmetric] mn .
  qed
qed

lemma length_candidate_codes: "length (candidate_codes k g) = k"
  by (induction k arbitrary: g) (simp_all split: prod.splits)

lemma disconnect_Inr: "disconnect srv sid = Inr (fst (projr (disconnect srv sid)), snd (projr (disconnect srv sid)))"
  by (simp add: disconnect_def split: prod.splits)

lemma demo_candidates: "candidate_codes 5 demo_rng = [''AB12C9'', ''AB12C9'', ''AB12C9'', ''AB12C9'', ''AB12C9'']"
  by code_simp

lemma demo_candidates2: "candidate_codes 5 demo_rng2 = [''AB12C9'', ''ZZZZZZ'', ''ZZZZZZ'', ''ZZZZZZ'', ''ZZZZZZ'']"
  by code_simp

lemma demo_emptied:
  "rooms (step (step (step demo_server (Disconnect ''H'')) (Disconnect ''V1'')) (Disconnect ''V2''))
     = [(''AB12C9'', \<lparr>host_sid = PNone, participants = [], created_at = 0, meta_host_state = None\<rparr>)]"
  by (simp add: step_def run_def disconnect_def disconnect_room_def sio_leave_all_def Let_def
      demo_server_def demo_room_def)

section \<open>The claims\<close>

text \<open>
  Claim C1. \<^verbatim>\<open>webrtc_ice\<close> reads \<^verbatim>\<open>room\<close> without the default and without
  \<^verbatim>\<open>.upper()\<close>, unlike \<^verbatim>\<open>webrtc_offer\<close> and every other handler. On the same
  undirected message the two reach different sessions: with the room written in lower case
  the offer reaches the other participants and the candidate reaches nobody; with no room
  the offer reaches nobody and the candidate reaches every other connected session.
\<close>

theorem webrtc_ice_room_not_normalised:
  "deliveries demo_server
     (webrtc_offer demo_server ''H''
        [(''room'', PStr ''ab12c9''), (''offer'', PStr ''sdp''), (''candidate'', PStr ''cand'')])
     = [{''V1'', ''V2''}]
   \<and> deliveries demo_server
       (webrtc_ice demo_server ''H''
          [(''room'', PStr ''ab12c9''), (''offer'', PStr ''sdp''), (''candidate'', PStr ''cand'')])
     = [{}]
   \<and> deliveries demo_server
       (webrtc_offer demo_server ''H'' [(''offer'', PStr ''sdp''), (''candidate'', PStr ''cand'')])
     = [{}]
   \<and> deliveries demo_server
       (webrtc_ice demo_server ''H'' [(''offer'', PStr ''sdp''), (''candidate'', PStr ''cand'')])
     = [{''V1'', ''V2''}]"
proof -
  have u: "upper [] = []" by (simp add: upper_def)
  have g: "groups demo_server (PStr []) = {}" by (simp add: demo_server_def demo_groups_def)
  show ?thesis
    by (auto simp: webrtc_offer_def webrtc_ice_def str_upper_def dict_get_def Let_def deliveries_def
        recipients_def upper_demo u g demo_groups_simps)
qed

text \<open>
  Where the message carries its room as a string already in upper case, the two handlers
  address their emission alike.
\<close>

lemma webrtc_ice_agrees_on_upper_case_room:
  assumes "map_of data ''room'' = Some (PStr r)" and "upper r = r"
  shows "map (\<lambda>e. (e_to e, e_room e, e_skip_sid e)) (snd (projr (webrtc_ice srv sid data)))
       = map (\<lambda>e. (e_to e, e_room e, e_skip_sid e)) (snd (projr (webrtc_offer srv sid data)))"
  using assms by (simp add: webrtc_offer_def webrtc_ice_def str_upper_def dict_get_def Let_def)

text \<open>
  Claim C2. When a session that is a participant of a room disconnects: if it is the host
  of the room, its entry is removed, \<^verbatim>\<open>host_sid\<close> is cleared, exactly one
  \<^verbatim>\<open>host-left\<close> is emitted to the room, reaching every remaining participant, and the
  snapshot of the room then reports \<^verbatim>\<open>host_online\<close> false; if it is not the host, its
  entry is removed, \<^verbatim>\<open>host_sid\<close> stays and no \<^verbatim>\<open>host-left\<close> is emitted to the room.
\<close>

theorem disconnect_host_cleanup:
  assumes "reachable srv" and "map_of (rooms srv) code = Some meta"
    and "sid \<in> fst ` set (participants meta)"
    and "disconnect srv sid = Inr (srv1, es)"
  shows
    "(host_sid meta = PStr sid \<longrightarrow>
        map_of (rooms srv1) code
          = Some (meta\<lparr>participants := AList.delete sid (participants meta), host_sid := PNone\<rparr>)
        \<and> filter (\<lambda>e. e_event e = ''host-left'' \<and> e_room e = PStr code) es
          = [\<lparr>e_event = ''host-left'', e_data = PDict [(''msg'', PStr ''host disconnected'')],
              e_to = PNone, e_room = PStr code, e_skip_sid = PNone\<rparr>]
        \<and> fst ` set (AList.delete sid (participants meta))
            \<subseteq> recipients srv1 \<lparr>e_event = ''host-left'', e_data = PDict [(''msg'', PStr ''host disconnected'')],
                                 e_to = PNone, e_room = PStr code, e_skip_sid = PNone\<rparr>
        \<and> get_room srv1 code
          = (200, PDict [(''room'', PStr code),
                         (''meta'', PDict [(''participants'',
                              PList (map (\<lambda>kv. participant_json (snd kv))
                                       (AList.delete sid (participants meta)))),
                            (''host_online'', PBool False)])]))
     \<and> (host_sid meta \<noteq> PStr sid \<longrightarrow>
        map_of (rooms srv1) code
          = Some (meta\<lparr>participants := AList.delete sid (participants meta)\<rparr>)
        \<and> filter (\<lambda>e. e_event e = ''host-left'' \<and> e_room e = PStr code) es = [])"
proof -
  have ok: "room_ok srv (code, meta)" by (rule wf_map_of[OF reachable_wf[OF assms(1)] assms(2)])
  have dist: "distinct (map fst (rooms srv))" using reachable_wf[OF assms(1)] by (simp add: wf_server_def)
  have mem: "(code, meta) \<in> set (rooms srv)" using assms(2) by (rule map_of_SomeD)
  obtain p where p: "map_of (participants meta) sid = Some p"
    using assms(3) by (cases "map_of (participants meta) sid") (auto simp: map_of_eq_None_iff)
  have r: "rooms srv1 = map (\<lambda>cm. fst (disconnect_room sid cm)) (rooms srv)"
    and g: "groups srv1 = groups srv"
    and e: "es = snd (disconnect_loop sid (rooms srv))"
    using assms(4) disconnect_loop_rooms[of sid "rooms srv"]
    by (auto simp: disconnect_def split: prod.splits)
  have look: "map_of (rooms srv1) code = Some (snd (fst (disconnect_room sid (code, meta))))"
    unfolding r using map_of_map_keep_key[of "\<lambda>cm. fst (disconnect_room sid cm)" "rooms srv" code]
    by (simp add: disconnect_room_code assms(2))
  have fil: "filter (\<lambda>e. e_event e = ''host-left'' \<and> e_room e = PStr code) es
      = filter (\<lambda>e. e_event e = ''host-left'') (snd (disconnect_room sid (code, meta)))"
    unfolding e by (rule disconnect_loop_filter_this[OF dist mem])
  have up: "upper code = code" using ok by (simp add: room_ok_def)
  have sub: "fst ` set (AList.delete sid (participants meta)) \<subseteq> groups srv1 (PStr code)"
    using ok dom_delete_subset[of sid "participants meta"] by (auto simp: room_ok_def g)
  show ?thesis
  proof (cases "host_sid meta = PStr sid")
    case True
    have l: "map_of (rooms srv1) code
        = Some (meta\<lparr>participants := AList.delete sid (participants meta), host_sid := PNone\<rparr>)"
      using look True by (simp add: disconnect_room_present[OF p])
    show ?thesis
      using True l fil sub
      by (simp add: disconnect_room_present[OF p] get_room_def up recipients_def)
  next
    case False
    then show ?thesis
      using look fil by (simp add: disconnect_room_present[OF p])
  qed
qed

theorem disconnect_host_cleanup_witness:
  "filter (\<lambda>e. e_event e = ''host-left'' \<and> e_room e = PStr ''AB12C9'')
      (snd (projr (disconnect demo_server ''H'')))
     = [\<lparr>e_event = ''host-left'', e_data = PDict [(''msg'', PStr ''host disconnected'')],
         e_to = PNone, e_room = PStr ''AB12C9'', e_skip_sid = PNone\<rparr>]
   \<and> map_option (\<lambda>m. (host_sid m, map fst (participants m)))
        (map_of (rooms (fst (projr (disconnect demo_server ''H'')))) ''AB12C9'')
     = Some (PNone, [''V1'', ''V2''])
   \<and> filter (\<lambda>e. e_event e = ''host-left'' \<and> e_room e = PStr ''AB12C9'')
      (snd (projr (disconnect demo_server ''V1''))) = []
   \<and> map_option (\<lambda>m. (host_sid m, map fst (participants m)))
        (map_of (rooms (fst (projr (disconnect demo_server ''V1'')))) ''AB12C9'')
     = Some (PStr ''H'', [''H'', ''V2''])"
proof -
  have h: "''H'' \<in> fst ` set (participants demo_room)" and v: "''V1'' \<in> fst ` set (participants demo_room)"
    by (simp_all add: demo_room_def)
  have hs: "host_sid demo_room = PStr ''H''" by (simp add: demo_room_def)
  show ?thesis
    using disconnect_host_cleanup[OF reachable_demo demo_rooms_lookup h disconnect_Inr]
      disconnect_host_cleanup[OF reachable_demo demo_rooms_lookup v disconnect_Inr]
    by (simp add: hs) (simp add: demo_room_def)
qed

text \<open>
  Claim C3. For a room named in ASCII characters, a host-status update is taken exactly
  when the named room exists and its
  \<^verbatim>\<open>host_sid\<close> is the sender: then the payload is stored under the room and emitted once
  to the whole group of the room, which holds every participant and the sender. In every
  other case nothing is stored, nothing is emitted and nothing is raised.
\<close>

theorem host_state_only_from_host:
  assumes "reachable srv" and "dict_get data ''room'' (PStr []) = PStr r" and "is_ascii r"
  shows
    "(map_of (rooms srv) (upper r) = Some meta \<and> host_sid meta = PStr sid \<longrightarrow>
        host_state srv sid data =
          Inr (srv\<lparr>rooms := AList.update (upper r) (meta\<lparr>meta_host_state := Some data\<rparr>) (rooms srv)\<rparr>,
               [\<lparr>e_event = ''host-state'', e_data = PDict data,
                 e_to = PNone, e_room = PStr (upper r), e_skip_sid = PNone\<rparr>])
        \<and> map_of (rooms (step srv (HostState sid data))) (upper r)
              = Some (meta\<lparr>meta_host_state := Some data\<rparr>)
        \<and> deliveries srv (host_state srv sid data) = [groups srv (PStr (upper r))]
        \<and> fst ` set (participants meta) \<subseteq> groups srv (PStr (upper r))
        \<and> sid \<in> groups srv (PStr (upper r)))
     \<and> (\<not> (\<exists>m. map_of (rooms srv) (upper r) = Some m \<and> host_sid m = PStr sid) \<longrightarrow>
        host_state srv sid data = Inr (srv, [])
        \<and> step srv (HostState sid data) = srv
        \<and> deliveries srv (host_state srv sid data) = [])"
proof -
  have "sid \<in> fst ` set (participants meta)"
    if "map_of (rooms srv) (upper r) = Some meta" and "host_sid meta = PStr sid"
    using wf_map_of[OF reachable_wf[OF assms(1)] that(1)] that(2)
    by (simp add: room_ok_def host_ok_def)
  then show ?thesis
    using assms participants_in_group[of srv "upper r" meta]
    by (auto simp: host_state_def str_upper_def deliveries_def recipients_def step_def run_def
        update_conv' split: option.splits)
qed

theorem host_state_only_from_host_witness:
  "host_state demo_server ''H'' [(''room'', PStr ''ab12c9''), (''is_sharing'', PBool True)] =
     Inr (demo_server\<lparr>rooms := [(''AB12C9'',
             demo_room\<lparr>meta_host_state := Some [(''room'', PStr ''ab12c9''), (''is_sharing'', PBool True)]\<rparr>)]\<rparr>,
          [\<lparr>e_event = ''host-state'',
            e_data = PDict [(''room'', PStr ''ab12c9''), (''is_sharing'', PBool True)],
            e_to = PNone, e_room = PStr ''AB12C9'', e_skip_sid = PNone\<rparr>])
   \<and> deliveries demo_server
        (host_state demo_server ''H'' [(''room'', PStr ''ab12c9''), (''is_sharing'', PBool True)])
      = [{''H'', ''V1'', ''V2''}]
   \<and> host_state demo_server ''V1'' [(''room'', PStr ''ab12c9''), (''is_sharing'', PBool True)]
      = Inr (demo_server, [])
   \<and> host_state demo_server ''H'' [(''room'', PStr ''zzzzzz''), (''is_sharing'', PBool True)]
      = Inr (demo_server, [])"
proof -
  have u: "upper ''zzzzzz'' = ''ZZZZZZ''" by code_simp
  have h: "host_sid demo_room = PStr ''H''" by (simp add: demo_room_def)
  show ?thesis
    using host_state_only_from_host[OF reachable_demo,
        where data = "[(''room'', PStr ''ab12c9''), (''is_sharing'', PBool True)]"
          and r = "''ab12c9''" and meta = demo_room and sid = "''H''"]
      host_state_only_from_host[OF reachable_demo,
        where data = "[(''room'', PStr ''ab12c9''), (''is_sharing'', PBool True)]"
          and r = "''ab12c9''" and meta = demo_room and sid = "''V1''"]
      host_state_only_from_host[OF reachable_demo,
        where data = "[(''room'', PStr ''zzzzzz''), (''is_sharing'', PBool True)]"
          and r = "''zzzzzz''" and meta = demo_room and sid = "''H''"]
    by (auto simp: dict_get_def upper_demo u h demo_groups_simps demo_rooms_lookup demo_rooms
        is_ascii_demo)
qed

text \<open>
  Claim C4. A join request that names, in ASCII characters, a code whose upper-case
  spelling is not a key of \<^verbatim>\<open>rooms\<close> makes one
  emission, \<^verbatim>\<open>join-error\<close>, addressed to the requesting session, and returns the state
  it was given: the registry and every room in it are as before.
\<close>

theorem join_room_unknown_code:
  assumes "dict_get data ''room'' (PStr []) = PStr r" and "is_ascii r"
    and "map_of (rooms srv) (upper r) = None"
  shows "join_room srv sid data =
           Inr (srv, [\<lparr>e_event = ''join-error'',
                       e_data = PDict [(''error'', PStr ''room-not-found'')],
                       e_to = PStr sid, e_room = PNone, e_skip_sid = PNone\<rparr>])
         \<and> step srv (JoinRoom sid data) = srv
         \<and> (sid \<noteq> [] \<and> groups srv (PStr sid) = {sid} \<longrightarrow>
              deliveries srv (join_room srv sid data) = [{sid}])"
  using assms
  by (auto simp: join_room_def str_upper_def Let_def deliveries_def recipients_def step_def run_def)

theorem join_room_unknown_code_witness:
  "join_room demo_server ''V1'' [(''room'', PStr ''zzzzzz''), (''name'', PStr ''Vik'')] =
           Inr (demo_server, [\<lparr>e_event = ''join-error'',
                       e_data = PDict [(''error'', PStr ''room-not-found'')],
                       e_to = PStr ''V1'', e_room = PNone, e_skip_sid = PNone\<rparr>])
   \<and> deliveries demo_server
        (join_room demo_server ''V1'' [(''room'', PStr ''zzzzzz''), (''name'', PStr ''Vik'')]) = [{''V1''}]"
proof -
  have u: "upper ''zzzzzz'' = ''ZZZZZZ''" by code_simp
  show ?thesis
    using join_room_unknown_code[of "[(''room'', PStr ''zzzzzz''), (''name'', PStr ''Vik'')]"
        "''zzzzzz''" demo_server "''V1''"]
    by (auto simp: dict_get_def u demo_groups_simps demo_rooms is_ascii_demo)
qed

text \<open>
  Claim C5. An offer whose \<^verbatim>\<open>to\<close> is given makes one emission addressed to that target,
  so a target that names a session is the only session reached. An offer with no target,
  for a room named in ASCII characters, makes one emission to the group of the named room
  with the sender skipped: the sender is not reached, and every other participant of the
  room is.
\<close>

theorem webrtc_offer_directed_or_broadcast:
  assumes "reachable srv" and "dict_get data ''room'' (PStr []) = PStr r"
  shows
    "(truthy (dict_get data ''to'' PNone) \<longrightarrow>
        webrtc_offer srv sid data =
          Inr (srv, [\<lparr>e_event = ''webrtc_offer'',
                      e_data = PDict [(''from'', PStr sid), (''offer'', dict_get data ''offer'' PNone)],
                      e_to = dict_get data ''to'' PNone, e_room = PNone, e_skip_sid = PNone\<rparr>]))
     \<and> (dict_get data ''to'' PNone = PStr t \<and> t \<noteq> [] \<and> groups srv (PStr t) = {t} \<longrightarrow>
        deliveries srv (webrtc_offer srv sid data) = [{t}])
     \<and> (\<not> truthy (dict_get data ''to'' PNone) \<and> is_ascii r \<longrightarrow>
        webrtc_offer srv sid data =
          Inr (srv, [\<lparr>e_event = ''webrtc_offer'',
                      e_data = PDict [(''from'', PStr sid), (''offer'', dict_get data ''offer'' PNone)],
                      e_to = PNone, e_room = PStr (upper r), e_skip_sid = PStr sid\<rparr>])
        \<and> deliveries srv (webrtc_offer srv sid data) = [groups srv (PStr (upper r)) - {sid}]
        \<and> (map_of (rooms srv) (upper r) = Some meta \<longrightarrow>
             fst ` set (participants meta) - {sid} \<subseteq> groups srv (PStr (upper r)) - {sid}))"
  using assms participants_in_group[of srv "upper r" meta]
  by (auto simp: webrtc_offer_def str_upper_def Let_def deliveries_def recipients_def)

theorem webrtc_offer_directed_or_broadcast_witness:
  "deliveries demo_server
     (webrtc_offer demo_server ''H'' [(''room'', PStr ''ab12c9''), (''to'', PStr ''V1''), (''offer'', PStr ''sdp'')])
     = [{''V1''}]
   \<and> deliveries demo_server
        (webrtc_offer demo_server ''H'' [(''room'', PStr ''ab12c9''), (''offer'', PStr ''sdp'')])
     = [{''H'', ''V1'', ''V2''} - {''H''}]
   \<and> fst ` set (participants demo_room) - {''H''} \<subseteq> {''H'', ''V1'', ''V2''} - {''H''}"
  using webrtc_offer_directed_or_broadcast[OF reachable_demo,
      where data = "[(''room'', PStr ''ab12c9''), (''to'', PStr ''V1''), (''offer'', PStr ''sdp'')]"
        and r = "''ab12c9''" and t = "''V1''" and sid = "''H''" and meta = demo_room]
    webrtc_offer_directed_or_broadcast[OF reachable_demo,
      where data = "[(''room'', PStr ''ab12c9''), (''offer'', PStr ''sdp'')]"
        and r = "''ab12c9''" and t = "''V1''" and sid = "''H''" and meta = demo_room]
  by (auto simp: dict_get_def upper_demo demo_groups_simps demo_rooms_lookup is_ascii_demo)

text \<open>
  Claim C6. \<^verbatim>\<open>create_room\<close> draws at most five codes, stops at the first one that is
  not a key of \<^verbatim>\<open>rooms\<close>, and otherwise keeps the fifth; it stores a fresh room (no
  host, no participants) under the code it ends with, whatever was stored there, and
  returns that code.
\<close>

theorem create_room_bounded_retry:
  "(let cs = candidate_codes 5 g;
        n = min 5 (Suc (length (takeWhile (\<lambda>c. map_of (rooms srv) c \<noteq> None) cs)));
        c = cs ! (n - 1)
    in create_room srv g now =
         (srv\<lparr>rooms := AList.update c (fresh_room now) (rooms srv)\<rparr>,
          (\<lambda>i. g (i + ROOM_CODE_LEN * n)),
          PDict [(''room'', PStr c)])
       \<and> map_of (rooms (fst (create_room srv g now))) c
           = Some \<lparr>host_sid = PNone, participants = [], created_at = now, meta_host_state = None\<rparr>
       \<and> 1 \<le> n \<and> n \<le> 5
       \<and> (n < 5 \<longrightarrow> map_of (rooms srv) c = None)
       \<and> (\<forall>i < n - 1. map_of (rooms srv) (cs ! i) \<noteq> None))"
proof -
  define cs where "cs = candidate_codes 5 g"
  define P where "P = (\<lambda>c. map_of (rooms srv) c \<noteq> None)"
  define n where "n = min 5 (Suc (length (takeWhile P cs)))"
  define c where "c = cs ! (n - 1)"
  have len: "length cs = 5" by (simp add: cs_def length_candidate_codes)
  have n1: "1 \<le> n" and n5: "n \<le> 5" by (simp_all add: n_def)
  have loop: "create_room_loop 5 (rooms srv) [] g = (c, \<lambda>i. g (i + ROOM_CODE_LEN * n))"
  proof -
    have "([] # cs) ! n = cs ! (n - 1)" using n1 by (cases n) simp_all
    then show ?thesis
      using create_room_loop_candidates[of 5 "rooms srv" "[]" g]
      by (simp add: cs_def P_def n_def c_def)
  qed
  have res: "create_room srv g now =
         (srv\<lparr>rooms := AList.update c (fresh_room now) (rooms srv)\<rparr>,
          (\<lambda>i. g (i + ROOM_CODE_LEN * n)),
          PDict [(''room'', PStr c)])"
    by (simp add: create_room_def loop)
  have look: "map_of (rooms (fst (create_room srv g now))) c
           = Some \<lparr>host_sid = PNone, participants = [], created_at = now, meta_host_state = None\<rparr>"
    by (simp add: res update_conv' fresh_room_def)
  have free: "map_of (rooms srv) c = None" if "n < 5"
  proof -
    have eq: "n - 1 = length (takeWhile P cs)" using that by (simp add: n_def)
    then have "length (takeWhile P cs) < length cs" using that len by simp
    then have "\<not> P (cs ! length (takeWhile P cs))" by (rule nth_length_takeWhile)
    then have "\<not> P c" unfolding c_def eq .
    then show ?thesis by (simp add: P_def)
  qed
  have coll: "map_of (rooms srv) (cs ! i) \<noteq> None" if "i < n - 1" for i
  proof -
    have "i < length (takeWhile P cs)" using that by (simp add: n_def)
    then have "P (takeWhile P cs ! i)" and "takeWhile P cs ! i = cs ! i"
      using nth_mem set_takeWhileD takeWhile_nth by metis+
    then show ?thesis by (simp add: P_def)
  qed
  show ?thesis
    unfolding Let_def cs_def[symmetric] P_def[symmetric] n_def[symmetric] c_def[symmetric]
    using res look n1 n5 free coll by blast
qed

theorem create_room_bounded_retry_witness:
  "fst (create_room demo_server demo_rng 7) = demo_server\<lparr>rooms := [(''AB12C9'', fresh_room 7)]\<rparr>
   \<and> snd (snd (create_room demo_server demo_rng 7)) = PDict [(''room'', PStr ''AB12C9'')]
   \<and> map_of (rooms demo_server) ''AB12C9'' = Some demo_room
   \<and> fst (create_room demo_server demo_rng2 7)
       = demo_server\<lparr>rooms := [(''AB12C9'', demo_room), (''ZZZZZZ'', fresh_room 7)]\<rparr>
   \<and> snd (snd (create_room demo_server demo_rng2 7)) = PDict [(''room'', PStr ''ZZZZZZ'')]"
  using create_room_bounded_retry[of demo_rng demo_server 7]
    create_room_bounded_retry[of demo_rng2 demo_server 7]
  by (simp add: Let_def demo_candidates demo_candidates2 demo_rooms)

text \<open>
  Claim C7. A chat message for a room named in ASCII characters makes one emission to
  the group of the named room, with no
  \<^verbatim>\<open>skip_sid\<close>: the whole group is reached, and every participant of the room,
  the sender among them, is in that group.
\<close>

theorem chat_message_to_whole_room:
  assumes "reachable srv" and "dict_get data ''room'' (PStr []) = PStr r" and "is_ascii r"
  shows "chat_message srv sid data =
           Inr (srv, [\<lparr>e_event = ''chat-message'',
                       e_data = PDict [(''from'', PStr sid), (''name'', dict_get data ''name'' PNone),
                                       (''text'', dict_get data ''text'' PNone)],
                       e_to = PNone, e_room = PStr (upper r), e_skip_sid = PNone\<rparr>])
         \<and> deliveries srv (chat_message srv sid data) = [groups srv (PStr (upper r))]
         \<and> (map_of (rooms srv) (upper r) = Some meta \<longrightarrow>
              fst ` set (participants meta) \<subseteq> groups srv (PStr (upper r)))"
  using assms participants_in_group[of srv "upper r" meta]
  by (auto simp: chat_message_def str_upper_def deliveries_def recipients_def)

theorem chat_message_to_whole_room_witness:
  "deliveries demo_server
     (chat_message demo_server ''V1'' [(''room'', PStr ''ab12c9''), (''name'', PStr ''Vik''), (''text'', PStr ''hi'')])
     = [{''H'', ''V1'', ''V2''}]
   \<and> fst ` set (participants demo_room) \<subseteq> {''H'', ''V1'', ''V2''}"
  using chat_message_to_whole_room[OF reachable_demo,
      of "[(''room'', PStr ''ab12c9''), (''name'', PStr ''Vik''), (''text'', PStr ''hi'')]" "''ab12c9''" "''V1''" demo_room]
  by (auto simp: dict_get_def upper_demo demo_groups_simps demo_rooms_lookup is_ascii_demo)

text \<open>
  Claim C8. An answer whose \<^verbatim>\<open>to\<close> is given makes one emission, addressed to that target
  and to nothing else, so a target that names a session is the only session reached. An
  answer with no target makes no emission at all, changes nothing and raises nothing.
\<close>

theorem webrtc_answer_target_or_drop:
  "(truthy (dict_get data ''to'' PNone) \<longrightarrow>
      webrtc_answer srv sid data =
        Inr (srv, [\<lparr>e_event = ''webrtc_answer'',
                    e_data = PDict [(''from'', PStr sid), (''answer'', dict_get data ''answer'' PNone)],
                    e_to = dict_get data ''to'' PNone, e_room = PNone, e_skip_sid = PNone\<rparr>]))
   \<and> (dict_get data ''to'' PNone = PStr t \<and> t \<noteq> [] \<and> groups srv (PStr t) = {t} \<longrightarrow>
      deliveries srv (webrtc_answer srv sid data) = [{t}])
   \<and> (\<not> truthy (dict_get data ''to'' PNone) \<longrightarrow>
      webrtc_answer srv sid data = Inr (srv, []) \<and> deliveries srv (webrtc_answer srv sid data) = [])"
  by (auto simp: webrtc_answer_def Let_def deliveries_def recipients_def)

theorem webrtc_answer_target_or_drop_witness:
  "deliveries demo_server
     (webrtc_answer demo_server ''V1'' [(''to'', PStr ''H''), (''answer'', PStr ''sdp'')]) = [{''H''}]
   \<and> webrtc_answer demo_server ''V1'' [(''to'', PStr ''H''), (''answer'', PStr ''sdp'')] =
        Inr (demo_server, [\<lparr>e_event = ''webrtc_answer'',
                    e_data = PDict [(''from'', PStr ''V1''), (''answer'', PStr ''sdp'')],
                    e_to = PStr ''H'', e_room = PNone, e_skip_sid = PNone\<rparr>])
   \<and> webrtc_answer demo_server ''V1'' [(''answer'', PStr ''sdp'')] = Inr (demo_server, [])"
  using webrtc_answer_target_or_drop[of "[(''to'', PStr ''H''), (''answer'', PStr ''sdp'')]" demo_server "''V1''" "''H''"]
    webrtc_answer_target_or_drop[of "[(''answer'', PStr ''sdp'')]" demo_server "''V1''" "''H''"]
  by (auto simp: dict_get_def demo_groups_simps)

text \<open>
  Claim C9. No operation removes a key of \<^verbatim>\<open>rooms\<close>: after any event the old keys are
  still keys, and a disconnect leaves the list of keys as it was, whatever is left of the
  rooms.
\<close>

theorem registry_keys_never_removed:
  "set (map fst (rooms srv)) \<subseteq> set (map fst (rooms (step srv ev)))
   \<and> (run srv ev = Inr (srv1, es) \<longrightarrow> set (map fst (rooms srv)) \<subseteq> set (map fst (rooms srv1)))
   \<and> (disconnect srv sid = Inr (srv2, es2) \<longrightarrow> map fst (rooms srv2) = map fst (rooms srv))
   \<and> map fst (rooms (step srv (Disconnect sid))) = map fst (rooms srv)"
proof (intro conjI impI)
  show "set (map fst (rooms srv)) \<subseteq> set (map fst (rooms (step srv ev)))"
  proof (cases "run srv ev")
    case (Inl err)
    then show ?thesis by (simp add: step_def)
  next
    case (Inr p)
    then obtain s1 e1 where "run srv ev = Inr (s1, e1)" by (cases p) simp
    then show ?thesis using keys_run[of srv ev s1 e1] by (simp add: step_def)
  qed
next
  assume "run srv ev = Inr (srv1, es)"
  then show "set (map fst (rooms srv)) \<subseteq> set (map fst (rooms srv1))" by (rule keys_run)
next
  assume "disconnect srv sid = Inr (srv2, es2)"
  then show "map fst (rooms srv2) = map fst (rooms srv)"
    using disconnect_loop_keys[of sid "rooms srv"]
    by (auto simp: disconnect_def split: prod.splits)
next
  show "map fst (rooms (step srv (Disconnect sid))) = map fst (rooms srv)"
    using disconnect_loop_keys[of sid "rooms srv"]
    by (auto simp: step_def run_def disconnect_def sio_leave_all_def split: prod.splits)
qed

theorem registry_keys_never_removed_witness:
  "rooms (step (step (step demo_server (Disconnect ''H'')) (Disconnect ''V1'')) (Disconnect ''V2''))
     = [(''AB12C9'', \<lparr>host_sid = PNone, participants = [], created_at = 0, meta_host_state = None\<rparr>)]
   \<and> map fst (rooms (step (step (step demo_server (Disconnect ''H'')) (Disconnect ''V1'')) (Disconnect ''V2'')))
     = map fst (rooms demo_server)
   \<and> set (map fst (rooms demo_server)) \<subseteq> set (map fst (rooms (step demo_server (CreateRoom demo_rng 7))))"
  using registry_keys_never_removed[where srv = demo_server and sid = "''H''" and ev = "CreateRoom demo_rng 7"]
    registry_keys_never_removed[where srv = "step demo_server (Disconnect ''H'')" and sid = "''V1''"]
    registry_keys_never_removed[where srv = "step (step demo_server (Disconnect ''H'')) (Disconnect ''V1'')"
      and sid = "''V2''"]
    demo_emptied
  by simp

text \<open>
  Claim C10. In every room of every reachable state, a \<^verbatim>\<open>host_sid\<close> that is set is the
  id of one of the participants of that room.
\<close>

theorem host_sid_is_participant:
  assumes "reachable srv" and "(code, meta) \<in> set (rooms srv)" and "host_sid meta \<noteq> PNone"
  shows "\<exists>s. host_sid meta = PStr s \<and> s \<in> fst ` set (participants meta)"
proof -
  have "room_ok srv (code, meta)"
    using reachable_wf[OF assms(1)] assms(2) by (simp add: wf_server_def list_all_iff)
  then have "host_ok meta" by (simp add: room_ok_def)
  then show ?thesis using assms(3) by (cases "host_sid meta") (simp_all add: host_ok_def)
qed

theorem host_sid_is_participant_witness:
  "(''AB12C9'', demo_room) \<in> set (rooms demo_server) \<and> host_sid demo_room \<noteq> PNone
   \<and> (\<exists>s. host_sid demo_room = PStr s \<and> s \<in> fst ` set (participants demo_room))"
  using host_sid_is_participant[OF reachable_demo, of "''AB12C9''" demo_room]
  by (simp add: demo_rooms demo_room_def)

end
